theory Spec2Isabelle
  imports Main "HOL-Library.Word"
begin

section \<open>Python strings\<close>

text \<open>
  A Python \<open>str\<close> is a sequence of Unicode code points; a code point is a natural
  number. Literals of the source are written \<open>str ''...''\<close>.
\<close>

type_synonym pystr = "nat list"

definition str :: "string \<Rightarrow> pystr" where
  "str cs = map of_char cs"

text \<open>
  \<open>str.isspace\<close> for one code point: the characters that \<open>str.strip()\<close> without
  an argument removes.
\<close>

definition isspace :: "nat \<Rightarrow> bool" where
  "isspace c =
     ((0x09 \<le> c \<and> c \<le> 0x0D) \<or> (0x1C \<le> c \<and> c \<le> 0x20) \<or> c = 0x85 \<or> c = 0xA0
      \<or> c = 0x1680 \<or> (0x2000 \<le> c \<and> c \<le> 0x200A) \<or> c = 0x2028 \<or> c = 0x2029
      \<or> c = 0x202F \<or> c = 0x205F \<or> c = 0x3000)"

text \<open>\<open>s.strip()\<close>: leading and trailing whitespace removed.\<close>

definition strip :: "pystr \<Rightarrow> pystr" where
  "strip s = rev (dropWhile isspace (rev (dropWhile isspace s)))"

text \<open>
  \<open>s.split(sep)\<close> for a separator of one character: a cut at every occurrence,
  empty pieces kept, so the result always has at least one piece. \<open>cur\<close> is the
  piece being collected.
\<close>

fun split_from :: "nat \<Rightarrow> pystr \<Rightarrow> pystr \<Rightarrow> pystr list" where
  "split_from sep cur [] = [cur]"
| "split_from sep cur (c # cs) =
     (if c = sep then cur # split_from sep [] cs else split_from sep (cur @ [c]) cs)"

definition py_split :: "nat \<Rightarrow> pystr \<Rightarrow> pystr list" where
  "py_split sep s = split_from sep [] s"

text \<open>\<open>sep.join(pieces)\<close>.\<close>

fun py_join :: "pystr \<Rightarrow> pystr list \<Rightarrow> pystr" where
  "py_join sep [] = []"
| "py_join sep [x] = x"
| "py_join sep (x # y # ys) = x @ sep @ py_join sep (y # ys)"

section \<open>The server object\<close>

datatype error = KeyError | IndexError | AttributeError | UnicodeDecodeError | UnicodeEncodeError

type_synonym byte = "8 word"

text \<open>
  The connected client socket: \<open>incoming\<close> holds the segments that have arrived or
  will arrive from the client, in order (\<open>recv\<close> blocks until the next one is there);
  when it is empty the client has closed its side. \<open>outgoing\<close> is the list of payloads
  given to \<open>sendall\<close>, oldest first.
\<close>

record connection =
  incoming :: "byte list list"
  outgoing :: "byte list list"
  closed :: bool

datatype listener = Listening | Shut

record server =
  input_buffer :: pystr
  output_buffer :: pystr
  done' :: bool
  socket :: "listener option"
  client_connection :: "connection option"
  port :: int
  room :: int

definition game_name :: pystr where
  "game_name = str ''Realms of Venture''"

definition room_dict :: "int \<rightharpoonup> pystr" where
  "room_dict = map_of
     [(0, str ''You are in the room with the white wallpaper''),
      (1, str ''You are in the room with the green wallpaper''),
      (2, str ''You are in the room with the brown wallpaper''),
      (3, str ''You are in the room with the mauve wallpaper'')]"

definition BYTES :: nat where
  "BYTES = 16"

text \<open>\<open>Server.__init__\<close>.\<close>

definition init :: "int \<Rightarrow> server" where
  "init p = \<lparr>input_buffer = [], output_buffer = [], done' = False, socket = None,
              client_connection = None, port = p, room = 0\<rparr>"

text \<open>\<open>Server.room_description\<close>: a dictionary subscript, which raises on a missing key.\<close>

definition room_description :: "int \<Rightarrow> error + pystr" where
  "room_description room_number =
     (case room_dict room_number of None \<Rightarrow> Inl KeyError | Some d \<Rightarrow> Inr d)"

text \<open>\<open>Server.greet\<close>.\<close>

definition greet :: "server \<Rightarrow> error + server" where
  "greet s =
     (case room_description (room s) of
        Inl e \<Rightarrow> Inl e
      | Inr d \<Rightarrow> Inr (s\<lparr>output_buffer := str ''Welcome to '' @ game_name @ str ''! '' @ d\<rparr>))"

text \<open>\<open>Server.move\<close>: the membership test and the subscript of \<open>valid_moves\<close> are one lookup.\<close>

definition valid_moves :: "(int \<times> pystr) \<rightharpoonup> int" where
  "valid_moves = map_of
     [((0, str ''north''), 3), ((0, str ''west''), 1), ((0, str ''east''), 2),
      ((1, str ''east''), 0), ((2, str ''west''), 0), ((3, str ''south''), 0)]"

definition move :: "pystr \<Rightarrow> server \<Rightarrow> error + server" where
  "move argument s =
     (case valid_moves (room s, argument) of
        Some r \<Rightarrow>
          (let s1 = s\<lparr>room := r\<rparr> in
           case room_description (room s1) of
             Inl e \<Rightarrow> Inl e
           | Inr d \<Rightarrow> Inr (s1\<lparr>output_buffer := d\<rparr>))
      | None \<Rightarrow> Inr (s\<lparr>output_buffer := str ''Not a valid move! Please try again.''\<rparr>))"

text \<open>\<open>Server.say\<close>; code point 0x27 is the apostrophe.\<close>

definition say :: "pystr \<Rightarrow> server \<Rightarrow> error + server" where
  "say argument s = Inr (s\<lparr>output_buffer := str ''You say, '' @ [0x27] @ argument @ [0x27]\<rparr>)"

text \<open>\<open>Server.quit\<close>.\<close>

definition quit :: "pystr \<Rightarrow> server \<Rightarrow> error + server" where
  "quit argument s = Inr (s\<lparr>done' := True, output_buffer := str ''Goodbye!''\<rparr>)"

text \<open>
  \<open>Server.route\<close>. Its first three statements (split on the space character, pop the
  first piece, join the rest with spaces) are \<open>route_parse\<close>; \<open>pop(0)\<close> raises on an
  empty list. The routing dictionary maps a command word to a bound method.
\<close>

datatype handler = Quit | Move | Say

definition routing_dict :: "pystr \<rightharpoonup> handler" where
  "routing_dict = map_of [(str ''quit'', Quit), (str ''move'', Move), (str ''say'', Say)]"

fun call :: "handler \<Rightarrow> pystr \<Rightarrow> server \<Rightarrow> error + server" where
  "call Quit arguments s = quit arguments s"
| "call Move arguments s = move arguments s"
| "call Say arguments s = say arguments s"

definition route_parse :: "pystr \<Rightarrow> error + (pystr \<times> pystr)" where
  "route_parse buf =
     (case py_split 0x20 buf of
        [] \<Rightarrow> Inl IndexError
      | command # received \<Rightarrow> Inr (command, py_join [0x20] received))"

definition route :: "server \<Rightarrow> error + server" where
  "route s =
     (case route_parse (input_buffer s) of
        Inl e \<Rightarrow> Inl e
      | Inr (command, arguments) \<Rightarrow>
          (case routing_dict command of
             Some h \<Rightarrow> call h arguments s
           | None \<Rightarrow> Inr (s\<lparr>output_buffer := str ''Not a valid command.''\<rparr>)))"

text \<open>
  The state reached by routing the given input buffers one after the other, as the
  loop of \<open>serve\<close> does with each line it has read; an exception ends the run.
\<close>

fun route_all :: "pystr list \<Rightarrow> server \<Rightarrow> error + server" where
  "route_all [] s = Inr s"
| "route_all (l # ls) s =
     (case route (s\<lparr>input_buffer := l\<rparr>) of
        Inl e \<Rightarrow> Inl e
      | Inr s' \<Rightarrow> route_all ls s')"

section \<open>Bytes on the wire\<close>

text \<open>
  \<open>bytes.decode('utf8')\<close> with strict error handling: shortest-form sequences of one
  to four bytes, no surrogates, nothing above U+10FFFF; anything else raises.
\<close>

definition continuation :: "byte \<Rightarrow> bool" where
  "continuation b = (0x80 \<le> b \<and> b \<le> 0xBF)"

definition low6 :: "byte \<Rightarrow> nat" where
  "low6 b = unat b mod 64"

definition prepend :: "nat \<Rightarrow> error + pystr \<Rightarrow> error + pystr" where
  "prepend c r = (case r of Inl e \<Rightarrow> Inl e | Inr cs \<Rightarrow> Inr (c # cs))"

fun utf8_decode :: "byte list \<Rightarrow> error + pystr" where
  "utf8_decode [] = Inr []"
| "utf8_decode (b0 # bs) =
     (if b0 < 0x80 then prepend (unat b0) (utf8_decode bs)
      else if 0xC2 \<le> b0 \<and> b0 \<le> 0xDF then
        (case bs of
           b1 # r \<Rightarrow>
             if continuation b1
             then prepend ((unat b0 - 0xC0) * 64 + low6 b1) (utf8_decode r)
             else Inl UnicodeDecodeError
         | [] \<Rightarrow> Inl UnicodeDecodeError)
      else if 0xE0 \<le> b0 \<and> b0 \<le> 0xEF then
        (case bs of
           b1 # b2 # r \<Rightarrow>
             if (if b0 = 0xE0 then 0xA0 else 0x80) \<le> b1
                \<and> b1 \<le> (if b0 = 0xED then 0x9F else 0xBF) \<and> continuation b2
             then prepend ((unat b0 - 0xE0) * 4096 + low6 b1 * 64 + low6 b2) (utf8_decode r)
             else Inl UnicodeDecodeError
         | _ \<Rightarrow> Inl UnicodeDecodeError)
      else if 0xF0 \<le> b0 \<and> b0 \<le> 0xF4 then
        (case bs of
           b1 # b2 # b3 # r \<Rightarrow>
             if (if b0 = 0xF0 then 0x90 else 0x80) \<le> b1
                \<and> b1 \<le> (if b0 = 0xF4 then 0x8F else 0xBF)
                \<and> continuation b2 \<and> continuation b3
             then prepend
                    ((unat b0 - 0xF0) * 262144 + low6 b1 * 4096 + low6 b2 * 64 + low6 b3)
                    (utf8_decode r)
             else Inl UnicodeDecodeError
         | _ \<Rightarrow> Inl UnicodeDecodeError)
      else Inl UnicodeDecodeError)"

text \<open>\<open>str.encode('utf8')\<close>: a surrogate code point cannot be encoded.\<close>

definition encode_char :: "nat \<Rightarrow> error + byte list" where
  "encode_char c =
     (if c < 0x80 then Inr [of_nat c]
      else if c < 0x800 then Inr [of_nat (0xC0 + c div 64), of_nat (0x80 + c mod 64)]
      else if 0xD800 \<le> c \<and> c \<le> 0xDFFF then Inl UnicodeEncodeError
      else if c < 0x10000 then
        Inr [of_nat (0xE0 + c div 4096), of_nat (0x80 + c div 64 mod 64),
             of_nat (0x80 + c mod 64)]
      else if c < 0x110000 then
        Inr [of_nat (0xF0 + c div 262144), of_nat (0x80 + c div 4096 mod 64),
             of_nat (0x80 + c div 64 mod 64), of_nat (0x80 + c mod 64)]
      else Inl UnicodeEncodeError)"

fun utf8_encode :: "pystr \<Rightarrow> error + byte list" where
  "utf8_encode [] = Inr []"
| "utf8_encode (c # cs) =
     (case encode_char c of
        Inl e \<Rightarrow> Inl e
      | Inr bs \<Rightarrow> (case utf8_encode cs of Inl e \<Rightarrow> Inl e | Inr r \<Rightarrow> Inr (bs @ r)))"

text \<open>The bytes of an ASCII literal.\<close>

definition bytes :: "string \<Rightarrow> byte list" where
  "bytes cs = map of_char cs"

text \<open>
  \<open>socket.recv(bufsize)\<close> on the connected socket: at most \<open>bufsize\<close> bytes of the
  segment at the front, the rest of it staying in front; the empty bytes object once the
  client has closed its side. \<open>socket.sendall(data)\<close> appends to what was sent.
\<close>

definition recv :: "nat \<Rightarrow> connection \<Rightarrow> byte list \<times> connection" where
  "recv bufsize c =
     (case incoming c of
        [] \<Rightarrow> ([], c)
      | seg # segs \<Rightarrow>
          (take bufsize seg,
           c\<lparr>incoming := (if length seg \<le> bufsize then segs else drop bufsize seg # segs)\<rparr>))"

definition sendall :: "byte list \<Rightarrow> connection \<Rightarrow> connection" where
  "sendall data c = c\<lparr>outgoing := outgoing c @ [data]\<rparr>"

text \<open>
  \<open>Server.connect\<close>: the listening socket is created and \<open>accept\<close> returns the
  connection of the next client, whose segments are \<open>arriving\<close>.
\<close>

definition connect :: "byte list list \<Rightarrow> server \<Rightarrow> server" where
  "connect arriving s =
     s\<lparr>socket := Some Listening,
       client_connection := Some \<lparr>incoming = arriving, outgoing = [], closed = False\<rparr>\<rparr>"

text \<open>
  \<open>Server.get_input\<close>. The loop receives and decodes until the text received holds a
  newline (code point 0x0A); it does not return when the client closes its side before
  that, which is the value \<open>None\<close>.
\<close>

partial_function (option) get_input_loop ::
  "connection \<Rightarrow> pystr \<Rightarrow> (error + pystr \<times> connection) option" where
  "get_input_loop c received =
     (if 0x0A \<in> set received then Some (Inr (received, c))
      else
        (case utf8_decode (fst (recv BYTES c)) of
           Inl e \<Rightarrow> Some (Inl e)
         | Inr decoded \<Rightarrow> get_input_loop (snd (recv BYTES c)) (received @ decoded)))"

definition get_input :: "server \<Rightarrow> (error + server) option" where
  "get_input s =
     (case client_connection s of
        None \<Rightarrow> Some (Inl AttributeError)
      | Some c \<Rightarrow>
          (case get_input_loop c [] of
             None \<Rightarrow> None
           | Some (Inl e) \<Rightarrow> Some (Inl e)
           | Some (Inr (received, c')) \<Rightarrow>
               Some (Inr (s\<lparr>client_connection := Some c', input_buffer := strip received\<rparr>))))"

text \<open>\<open>Server.push_output\<close>.\<close>

definition push_output :: "server \<Rightarrow> error + server" where
  "push_output s =
     (case utf8_encode (str ''OK! '' @ output_buffer s @ [0x0A]) of
        Inl e \<Rightarrow> Inl e
      | Inr output_string \<Rightarrow>
          (case client_connection s of
             None \<Rightarrow> Inl AttributeError
           | Some c \<Rightarrow> Inr (s\<lparr>client_connection := Some (sendall output_string c)\<rparr>)))"

text \<open>\<open>Server.serve\<close>: its \<open>while not self.done\<close> loop, then the whole method.\<close>

partial_function (option) serve_loop :: "server \<Rightarrow> (error + server) option" where
  "serve_loop s =
     (if done' s then Some (Inr s)
      else
        (case get_input s of
           None \<Rightarrow> None
         | Some (Inl e) \<Rightarrow> Some (Inl e)
         | Some (Inr s1) \<Rightarrow>
             (case route s1 of
                Inl e \<Rightarrow> Some (Inl e)
              | Inr s2 \<Rightarrow>
                  (case push_output s2 of
                     Inl e \<Rightarrow> Some (Inl e)
                   | Inr s3 \<Rightarrow> serve_loop s3))))"

definition close_sockets :: "server \<Rightarrow> error + server" where
  "close_sockets s =
     (case client_connection s of
        None \<Rightarrow> Inl AttributeError
      | Some c \<Rightarrow>
          (case socket s of
             None \<Rightarrow> Inl AttributeError
           | Some l \<Rightarrow> Inr (s\<lparr>client_connection := Some (c\<lparr>closed := True\<rparr>), socket := Some Shut\<rparr>)))"

definition serve :: "byte list list \<Rightarrow> server \<Rightarrow> (error + server) option" where
  "serve arriving s =
     (case greet (connect arriving s) of
        Inl e \<Rightarrow> Some (Inl e)
      | Inr s1 \<Rightarrow>
          (case push_output s1 of
             Inl e \<Rightarrow> Some (Inl e)
           | Inr s2 \<Rightarrow>
               (case serve_loop s2 of
                  None \<Rightarrow> None
                | Some (Inl e) \<Rightarrow> Some (Inl e)
                | Some (Inr s3) \<Rightarrow> Some (close_sockets s3))))"

section \<open>The parse step as the specification words it\<close>

text \<open>
  The specification's step 1 of handling a line: trailing whitespace trimmed, the
  command is what stands before the first whitespace, the argument what follows the
  whitespace run. It is compared with what \<open>get_input\<close> and \<open>route\<close> do.
\<close>

definition spec_parse :: "pystr \<Rightarrow> pystr \<times> pystr" where
  "spec_parse line =
     (let t = rev (dropWhile isspace (rev line)) in
      (takeWhile (\<lambda>c. \<not> isspace c) t,
       dropWhile isspace (dropWhile (\<lambda>c. \<not> isspace c) t)))"

section \<open>Facts about the string operations\<close>

lemma split_from_nonempty: "split_from sep cur s \<noteq> []"
  by (induction s arbitrary: cur) auto

lemma join_split_from: "py_join [sep] (split_from sep cur s) = cur @ s"
proof (induction s arbitrary: cur)
  case Nil
  then show ?case by simp
next
  case (Cons c cs)
  show ?case
  proof (cases "c = sep")
    case True
    obtain y ys where ys: "split_from sep [] cs = y # ys"
      using split_from_nonempty [of sep "[]" cs] by (cases "split_from sep [] cs") auto
    have "py_join [sep] (split_from sep [] cs) = cs"
      using Cons.IH [of "[]"] by simp
    with ys True show ?thesis by simp
  next
    case False
    then show ?thesis using Cons.IH [of "cur @ [c]"] by simp
  qed
qed

lemma split_from_prefix:
  "sep \<notin> set a \<Longrightarrow> split_from sep cur (a @ s) = split_from sep (cur @ a) s"
  by (induction a arbitrary: cur) auto

lemma route_parse_space:
  assumes "0x20 \<notin> set cmd"
  shows "route_parse (cmd @ 0x20 # arg) = Inr (cmd, arg)"
proof -
  have "split_from 0x20 [] (cmd @ 0x20 # arg) = cmd # split_from 0x20 [] arg"
    using split_from_prefix [OF assms, of "[]" "0x20 # arg"] by simp
  moreover have "py_join [0x20] (split_from 0x20 [] arg) = arg"
    using join_split_from [of "0x20" "[]" arg] by simp
  ultimately show ?thesis by (simp add: route_parse_def py_split_def)
qed

lemma route_parse_word:
  assumes "0x20 \<notin> set cmd"
  shows "route_parse cmd = Inr (cmd, [])"
  using split_from_prefix [OF assms, of "[]" "[]"] by (simp add: route_parse_def py_split_def)

lemma takeWhile_upto: "sep \<notin> set a \<Longrightarrow> takeWhile (\<lambda>c. c \<noteq> sep) (a @ sep # d) = a"
  by (induction a) auto

lemma dropWhile_upto:
  "sep \<notin> set a \<Longrightarrow> dropWhile (\<lambda>c. c \<noteq> sep) (a @ sep # d) = sep # d"
  by (induction a) auto

lemma takeWhile_nosep: "sep \<notin> set a \<Longrightarrow> takeWhile (\<lambda>c. c \<noteq> sep) a = a"
  by (induction a) auto

lemma dropWhile_nosep: "sep \<notin> set a \<Longrightarrow> dropWhile (\<lambda>c. c \<noteq> sep) a = []"
  by (induction a) auto

lemma route_parse_eq:
  "route_parse b =
     Inr (takeWhile (\<lambda>c. c \<noteq> 0x20) b, drop 1 (dropWhile (\<lambda>c. c \<noteq> 0x20) b))"
proof (cases "0x20 \<in> set b")
  case True
  then obtain a d where b: "b = a @ 0x20 # d" and a: "0x20 \<notin> set a"
    by (auto dest: split_list_first)
  have "takeWhile (\<lambda>c. c \<noteq> 0x20) b = a"
    using a b by (simp add: takeWhile_upto)
  moreover have "dropWhile (\<lambda>c. c \<noteq> 0x20) b = 0x20 # d"
    using a b by (simp add: dropWhile_upto)
  ultimately show ?thesis using route_parse_space [OF a, of d] b by simp
next
  case False
  then show ?thesis
    using route_parse_word [OF False] by (simp add: takeWhile_nosep dropWhile_nosep)
qed

section \<open>Routing one command\<close>

lemma route_move: "route (s\<lparr>input_buffer := str ''move '' @ d\<rparr>) = move d (s\<lparr>input_buffer := str ''move '' @ d\<rparr>)"
proof -
  have "route_parse (str ''move'' @ 0x20 # d) = Inr (str ''move'', d)"
    by (rule route_parse_space) (simp add: str_def)
  then have "route_parse (str ''move '' @ d) = Inr (str ''move'', d)"
    by (simp add: str_def)
  moreover have "routing_dict (str ''move'') = Some Move"
    by (simp add: routing_dict_def str_def)
  ultimately show ?thesis by (simp add: route_def)
qed

lemma route_say: "route (s\<lparr>input_buffer := str ''say '' @ d\<rparr>) = say d (s\<lparr>input_buffer := str ''say '' @ d\<rparr>)"
proof -
  have "route_parse (str ''say'' @ 0x20 # d) = Inr (str ''say'', d)"
    by (rule route_parse_space) (simp add: str_def)
  then have "route_parse (str ''say '' @ d) = Inr (str ''say'', d)"
    by (simp add: str_def)
  moreover have "routing_dict (str ''say'') = Some Say"
    by (simp add: routing_dict_def str_def)
  ultimately show ?thesis by (simp add: route_def)
qed

lemma route_quit_arg: "route (s\<lparr>input_buffer := str ''quit '' @ d\<rparr>) = quit d (s\<lparr>input_buffer := str ''quit '' @ d\<rparr>)"
proof -
  have "route_parse (str ''quit'' @ 0x20 # d) = Inr (str ''quit'', d)"
    by (rule route_parse_space) (simp add: str_def)
  then have "route_parse (str ''quit '' @ d) = Inr (str ''quit'', d)"
    by (simp add: str_def)
  moreover have "routing_dict (str ''quit'') = Some Quit"
    by (simp add: routing_dict_def str_def)
  ultimately show ?thesis by (simp add: route_def)
qed

lemma route_quit_bare: "route (s\<lparr>input_buffer := str ''quit''\<rparr>) = quit [] (s\<lparr>input_buffer := str ''quit''\<rparr>)"
proof -
  have "route_parse (str ''quit'') = Inr (str ''quit'', [])"
    by (rule route_parse_word) (simp add: str_def)
  moreover have "routing_dict (str ''quit'') = Some Quit"
    by (simp add: routing_dict_def str_def)
  ultimately show ?thesis by (simp add: route_def)
qed

lemma route_quit_continued:
  assumes "c \<noteq> 0x20"
  shows "route (s\<lparr>input_buffer := str ''quit'' @ c # x\<rparr>) =
           Inr (s\<lparr>input_buffer := str ''quit'' @ c # x,
                  output_buffer := str ''Not a valid command.''\<rparr>)"
proof -
  have "takeWhile (\<lambda>c. c \<noteq> 0x20) (str ''quit'' @ c # x) =
          str ''quit'' @ c # takeWhile (\<lambda>c. c \<noteq> 0x20) x"
    using assms by (simp add: str_def)
  moreover have "routing_dict (str ''quit'' @ c # takeWhile (\<lambda>c. c \<noteq> 0x20) x) = None"
    by (simp add: routing_dict_def str_def)
  ultimately show ?thesis by (simp add: route_def route_parse_eq)
qed

lemma valid_moves_range:
  "valid_moves k = Some r \<Longrightarrow> r = 0 \<or> r = 1 \<or> r = 2 \<or> r = 3"
  by (simp add: valid_moves_def split: if_splits)

lemma room_description_defined:
  "r = 0 \<or> r = 1 \<or> r = 2 \<or> r = 3 \<Longrightarrow> \<exists>desc. room_description r = Inr desc"
  by (auto simp: room_description_def room_dict_def)

lemma room_description_values:
  "room_description 0 = Inr (str ''You are in the room with the white wallpaper'')"
  "room_description 1 = Inr (str ''You are in the room with the green wallpaper'')"
  "room_description 2 = Inr (str ''You are in the room with the brown wallpaper'')"
  "room_description 3 = Inr (str ''You are in the room with the mauve wallpaper'')"
  by (simp_all add: room_description_def room_dict_def)

lemma move_line_literals:
  "str ''move '' @ str ''north'' = str ''move north''"
  "str ''move '' @ str ''south'' = str ''move south''"
  "str ''move '' @ str ''east'' = str ''move east''"
  "str ''move '' @ str ''west'' = str ''move west''"
  "str ''move '' @ str ''up'' = str ''move up''"
  by (simp_all add: str_def)

text \<open>
  C1. For every pair (room, direction) of the transition table, routing the input
  line "move " + direction while in that room sets the room to the mapped destination and
  puts that destination's description into the output buffer.
\<close>

theorem move_valid_transition:
  assumes "valid_moves (room s, d) = Some r"
  shows "\<exists>desc. room_description r = Inr desc \<and>
           route (s\<lparr>input_buffer := str ''move '' @ d\<rparr>) =
             Inr (s\<lparr>input_buffer := str ''move '' @ d, room := r, output_buffer := desc\<rparr>)"
proof -
  obtain desc where desc: "room_description r = Inr desc"
    using room_description_defined [OF valid_moves_range [OF assms]] by blast
  have "move d (s\<lparr>input_buffer := str ''move '' @ d\<rparr>) =
          Inr (s\<lparr>input_buffer := str ''move '' @ d, room := r, output_buffer := desc\<rparr>)"
    using assms desc by (simp add: move_def)
  with desc show ?thesis by (simp add: route_move)
qed

theorem move_valid_transition_witness:
  "route ((init 50000)\<lparr>input_buffer := str ''move north''\<rparr>) =
     Inr ((init 50000)\<lparr>input_buffer := str ''move north'', room := 3,
            output_buffer := str ''You are in the room with the mauve wallpaper''\<rparr>)
   \<and> route ((init 50000)\<lparr>input_buffer := str ''move west''\<rparr>) =
     Inr ((init 50000)\<lparr>input_buffer := str ''move west'', room := 1,
            output_buffer := str ''You are in the room with the green wallpaper''\<rparr>)
   \<and> route ((init 50000)\<lparr>input_buffer := str ''move east''\<rparr>) =
     Inr ((init 50000)\<lparr>input_buffer := str ''move east'', room := 2,
            output_buffer := str ''You are in the room with the brown wallpaper''\<rparr>)
   \<and> route ((init 50000)\<lparr>room := 1, input_buffer := str ''move east''\<rparr>) =
     Inr ((init 50000)\<lparr>input_buffer := str ''move east'', room := 0,
            output_buffer := str ''You are in the room with the white wallpaper''\<rparr>)
   \<and> route ((init 50000)\<lparr>room := 2, input_buffer := str ''move west''\<rparr>) =
     Inr ((init 50000)\<lparr>input_buffer := str ''move west'', room := 0,
            output_buffer := str ''You are in the room with the white wallpaper''\<rparr>)
   \<and> route ((init 50000)\<lparr>room := 3, input_buffer := str ''move south''\<rparr>) =
     Inr ((init 50000)\<lparr>input_buffer := str ''move south'', room := 0,
            output_buffer := str ''You are in the room with the white wallpaper''\<rparr>)"
proof -
  have n: "valid_moves (room (init 50000), str ''north'') = Some 3"
    and w: "valid_moves (room (init 50000), str ''west'') = Some 1"
    and e: "valid_moves (room (init 50000), str ''east'') = Some 2"
    and e1: "valid_moves (room ((init 50000)\<lparr>room := 1\<rparr>), str ''east'') = Some 0"
    and w2: "valid_moves (room ((init 50000)\<lparr>room := 2\<rparr>), str ''west'') = Some 0"
    and s3: "valid_moves (room ((init 50000)\<lparr>room := 3\<rparr>), str ''south'') = Some 0"
    by (simp_all add: valid_moves_def init_def str_def)
  show ?thesis
    using move_valid_transition [OF n] move_valid_transition [OF w]
      move_valid_transition [OF e] move_valid_transition [OF e1]
      move_valid_transition [OF w2] move_valid_transition [OF s3]
    by (simp add: room_description_values move_line_literals)
qed

text \<open>
  C2. For every pair (room, direction) that is not in the transition table, whatever
  the direction string is, routing the input line "move " + direction leaves the room
  (and everything but the buffers) unchanged and puts the fixed rejection message into the
  output buffer.
\<close>

theorem move_invalid_rejected:
  assumes "valid_moves (room s, d) = None"
  shows "route (s\<lparr>input_buffer := str ''move '' @ d\<rparr>) =
           Inr (s\<lparr>input_buffer := str ''move '' @ d,
                  output_buffer := str ''Not a valid move! Please try again.''\<rparr>)"
  using assms by (simp add: route_move move_def)

theorem move_invalid_rejected_witness:
  "route ((init 50000)\<lparr>room := 1, input_buffer := str ''move north''\<rparr>) =
     Inr ((init 50000)\<lparr>room := 1, input_buffer := str ''move north'',
            output_buffer := str ''Not a valid move! Please try again.''\<rparr>)
   \<and> route ((init 50000)\<lparr>input_buffer := str ''move up''\<rparr>) =
     Inr ((init 50000)\<lparr>input_buffer := str ''move up'',
            output_buffer := str ''Not a valid move! Please try again.''\<rparr>)"
proof -
  have h: "valid_moves (room ((init 50000)\<lparr>room := 1\<rparr>), str ''north'') = None"
    and u: "valid_moves (room (init 50000), str ''up'') = None"
    by (simp_all add: valid_moves_def init_def str_def)
  show ?thesis
    using move_invalid_rejected [OF h] move_invalid_rejected [OF u]
    by (simp add: move_line_literals)
qed

text \<open>
  C4, as stated: the input line "quit" followed by any suffix terminates the session.
  It fails for the suffix "x": "quitx" is another command word, the flag stays false and
  the reply is the one for an unknown command.
\<close>

theorem quit_suffix_counterexample:
  "route ((init 50000)\<lparr>input_buffer := str ''quit'' @ str ''x''\<rparr>) =
     Inr ((init 50000)\<lparr>input_buffer := str ''quit'' @ str ''x'',
            output_buffer := str ''Not a valid command.''\<rparr>)
   \<and> done' ((init 50000)\<lparr>input_buffer := str ''quit'' @ str ''x'',
                output_buffer := str ''Not a valid command.''\<rparr>) = False"
proof -
  have "route_parse (str ''quitx'') = Inr (str ''quitx'', [])"
    by (rule route_parse_word) (simp add: str_def)
  moreover have "routing_dict (str ''quitx'') = None"
    by (simp add: routing_dict_def str_def)
  moreover have "str ''quit'' @ str ''x'' = str ''quitx''"
    by (simp add: str_def)
  ultimately show ?thesis by (simp add: route_def init_def)
qed

text \<open>
  C4, amended: for every argument string, the input line "quit" alone and the input
  line "quit " + argument (the word, a space, anything) set the termination flag and put
  "Goodbye!" into the output buffer; an input line that continues the word "quit" with
  any character other than a space is another command word and gets the reply for an
  unknown command, the flag unchanged.
\<close>

theorem quit_terminates:
  "route (s\<lparr>input_buffer := str ''quit''\<rparr>) =
     Inr (s\<lparr>input_buffer := str ''quit'', done' := True, output_buffer := str ''Goodbye!''\<rparr>)
   \<and> route (s\<lparr>input_buffer := str ''quit '' @ a\<rparr>) =
     Inr (s\<lparr>input_buffer := str ''quit '' @ a, done' := True,
            output_buffer := str ''Goodbye!''\<rparr>)
   \<and> (\<forall>c x. c \<noteq> 0x20 \<longrightarrow>
         route (s\<lparr>input_buffer := str ''quit'' @ c # x\<rparr>) =
           Inr (s\<lparr>input_buffer := str ''quit'' @ c # x,
                  output_buffer := str ''Not a valid command.''\<rparr>))"
  by (simp add: route_quit_bare route_quit_arg quit_def route_quit_continued)

theorem quit_terminates_witness:
  "route ((init 50000)\<lparr>input_buffer := str ''quit now''\<rparr>) =
     Inr ((init 50000)\<lparr>input_buffer := str ''quit now'', done' := True,
            output_buffer := str ''Goodbye!''\<rparr>)
   \<and> route ((init 50000)\<lparr>input_buffer := str ''quit'' @ 0x09 # str ''now''\<rparr>) =
     Inr ((init 50000)\<lparr>input_buffer := str ''quit'' @ 0x09 # str ''now'',
            output_buffer := str ''Not a valid command.''\<rparr>)"
proof -
  have e: "str ''quit '' @ str ''now'' = str ''quit now''"
    by (simp add: str_def)
  have n: "(0x09::nat) \<noteq> 0x20"
    by simp
  have "route ((init 50000)\<lparr>input_buffer := str ''quit'' @ 0x09 # str ''now''\<rparr>) =
     Inr ((init 50000)\<lparr>input_buffer := str ''quit'' @ 0x09 # str ''now'',
            output_buffer := str ''Not a valid command.''\<rparr>)"
    using quit_terminates [of "init 50000" "str ''now''"] n by blast
  moreover have "route ((init 50000)\<lparr>input_buffer := str ''quit '' @ str ''now''\<rparr>) =
     Inr ((init 50000)\<lparr>input_buffer := str ''quit '' @ str ''now'', done' := True,
            output_buffer := str ''Goodbye!''\<rparr>)"
    using quit_terminates [of "init 50000" "str ''now''"] by blast
  ultimately show ?thesis by (simp add: e)
qed

text \<open>
  C6. For every argument string, routing the input line "say " + argument puts
  "You say, '" + argument + "'" into the output buffer: the argument appears as it was
  sent, spaces and quote characters included.
\<close>

theorem say_embeds_verbatim:
  "route (s\<lparr>input_buffer := str ''say '' @ argument\<rparr>) =
     Inr (s\<lparr>input_buffer := str ''say '' @ argument,
            output_buffer := str ''You say, '' @ [0x27] @ argument @ [0x27]\<rparr>)"
  by (simp add: route_say say_def)

section \<open>Stripping, and routing any line\<close>

lemma dropWhile_snoc_keep: "\<not> P x \<Longrightarrow> dropWhile P (xs @ [x]) = dropWhile P xs @ [x]"
  by (induction xs) auto


lemma rstrip_space_Cons:
  "rev (dropWhile isspace (rev (0x20 # x))) = [] \<or>
   rev (dropWhile isspace (rev (0x20 # x))) = 0x20 # rev (dropWhile isspace (rev x))"
proof (cases "\<forall>c\<in>set x. isspace c")
  case True
  have "isspace 0x20" by (simp add: isspace_def)
  with True show ?thesis by (simp add: dropWhile_append)
next
  case False
  then show ?thesis by (simp add: dropWhile_append)
qed

lemma strip_say:
  "strip (str ''say '' @ x) = str ''say'' \<or>
   strip (str ''say '' @ x) = str ''say '' @ rev (dropWhile isspace (rev x))"
proof -
  have "strip (str ''say '' @ x) = str ''say'' @ rev (dropWhile isspace (rev (0x20 # x)))"
    by (simp add: str_def strip_def dropWhile_snoc_keep isspace_def dropWhile_append)
  then show ?thesis using rstrip_space_Cons [of x] by (auto simp: str_def)
qed

lemma route_say_bare:
  "route (s\<lparr>input_buffer := str ''say''\<rparr>) = say [] (s\<lparr>input_buffer := str ''say''\<rparr>)"
proof -
  have "route_parse (str ''say'') = Inr (str ''say'', [])"
    by (rule route_parse_word) (simp add: str_def)
  moreover have "routing_dict (str ''say'') = Some Say"
    by (simp add: routing_dict_def str_def)
  ultimately show ?thesis by (simp add: route_def)
qed

text \<open>
  C7. For every string \<open>x\<close> (empty and whitespace-only ones included), routing the
  input line "say " + \<open>x\<close>, as it stands or stripped the way \<open>get_input\<close> stores it,
  changes neither the room nor the termination flag.
\<close>

theorem say_changes_no_state:
  "(\<exists>s'. route (s\<lparr>input_buffer := str ''say '' @ x\<rparr>) = Inr s' \<and> room s' = room s
         \<and> done' s' = done' s)
   \<and> (\<exists>s'. route (s\<lparr>input_buffer := strip (str ''say '' @ x)\<rparr>) = Inr s' \<and> room s' = room s
         \<and> done' s' = done' s)"
proof
  show "\<exists>s'. route (s\<lparr>input_buffer := str ''say '' @ x\<rparr>) = Inr s' \<and> room s' = room s
         \<and> done' s' = done' s"
    by (simp add: route_say say_def)
  show "\<exists>s'. route (s\<lparr>input_buffer := strip (str ''say '' @ x)\<rparr>) = Inr s' \<and> room s' = room s
         \<and> done' s' = done' s"
    using strip_say [of x]
  proof
    assume "strip (str ''say '' @ x) = str ''say''"
    then show ?thesis by (simp add: route_say_bare say_def)
  next
    assume "strip (str ''say '' @ x) = str ''say '' @ rev (dropWhile isspace (rev x))"
    then show ?thesis by (simp add: route_say say_def)
  qed
qed

lemma move_result:
  "\<exists>s'. move a s = Inr s' \<and> done' s' = done' s \<and>
        (room s' = room s \<or> room s' = 0 \<or> room s' = 1 \<or> room s' = 2 \<or> room s' = 3)"
proof (cases "valid_moves (room s, a)")
  case None
  then show ?thesis by (simp add: move_def)
next
  case (Some r)
  obtain desc where "room_description r = Inr desc"
    using room_description_defined [OF valid_moves_range [OF Some]] by blast
  with Some valid_moves_range [OF Some] show ?thesis by (auto simp: move_def)
qed

lemma route_result:
  "\<exists>s'. route s = Inr s' \<and> (done' s' \<or> done' s' = done' s) \<and>
        (room s' = room s \<or> room s' = 0 \<or> room s' = 1 \<or> room s' = 2 \<or> room s' = 3)"
proof (cases "routing_dict (takeWhile (\<lambda>c. c \<noteq> 0x20) (input_buffer s))")
  case None
  then show ?thesis by (simp add: route_def route_parse_eq)
next
  case (Some h)
  show ?thesis
  proof (cases h)
    case Quit
    with Some show ?thesis by (simp add: route_def route_parse_eq quit_def)
  next
    case Move
    with Some move_result [of "drop 1 (dropWhile (\<lambda>c. c \<noteq> 0x20) (input_buffer s))" s]
    show ?thesis by (auto simp: route_def route_parse_eq)
  next
    case Say
    with Some show ?thesis by (simp add: route_def route_parse_eq say_def)
  qed
qed

lemma route_all_rooms:
  "room s = 0 \<or> room s = 1 \<or> room s = 2 \<or> room s = 3 \<Longrightarrow>
   \<exists>s'. route_all ls s = Inr s' \<and> (room s' = 0 \<or> room s' = 1 \<or> room s' = 2 \<or> room s' = 3)"
proof (induction ls arbitrary: s)
  case Nil
  then show ?case by simp
next
  case (Cons l ls)
  obtain s1 where s1: "route (s\<lparr>input_buffer := l\<rparr>) = Inr s1"
    and r: "room s1 = room (s\<lparr>input_buffer := l\<rparr>) \<or> room s1 = 0 \<or> room s1 = 1 \<or> room s1 = 2 \<or> room s1 = 3"
    using route_result [of "s\<lparr>input_buffer := l\<rparr>"] by blast
  from r Cons.prems have "room s1 = 0 \<or> room s1 = 1 \<or> room s1 = 2 \<or> room s1 = 3"
    by auto
  from Cons.IH [OF this] s1 show ?case by simp
qed

text \<open>
  C10. From the initial state (room 0), whatever input lines are routed, no exception is
  raised and the room reached is one of 0, 1, 2, 3: it has a description, so greeting
  there and routing one more line (a move included) succeed.
\<close>

theorem room_always_described:
  "\<exists>s. route_all ls (init p) = Inr s \<and> room s \<in> {0, 1, 2, 3}
        \<and> (\<exists>d. room_description (room s) = Inr d) \<and> (\<exists>s'. greet s = Inr s')
        \<and> (\<exists>s'. route (s\<lparr>input_buffer := l\<rparr>) = Inr s')"
proof -
  have "room (init p) = 0 \<or> room (init p) = 1 \<or> room (init p) = 2 \<or> room (init p) = 3"
    by (simp add: init_def)
  from route_all_rooms [OF this, of ls]
  obtain s where s: "route_all ls (init p) = Inr s"
    and r: "room s = 0 \<or> room s = 1 \<or> room s = 2 \<or> room s = 3"
    by blast
  obtain d where d: "room_description (room s) = Inr d"
    using room_description_defined [OF r] by blast
  then have "\<exists>s'. greet s = Inr s'" by (simp add: greet_def)
  moreover have "\<exists>s'. route (s\<lparr>input_buffer := l\<rparr>) = Inr s'"
    using route_result [of "s\<lparr>input_buffer := l\<rparr>"] by blast
  ultimately show ?thesis using s r d by auto
qed

text \<open>
  C5, as stated: with the termination flag set, the router changes no room and gives a
  fixed response. It fails in room 0 on the input line "move north": the router moves
  to room 3 and answers with that room's description.
\<close>

theorem router_not_defensive_counterexample:
  "done' ((init 50000)\<lparr>done' := True, input_buffer := str ''move north''\<rparr>) = True
   \<and> room ((init 50000)\<lparr>done' := True, input_buffer := str ''move north''\<rparr>) = 0
   \<and> route ((init 50000)\<lparr>done' := True, input_buffer := str ''move north''\<rparr>) =
       Inr ((init 50000)\<lparr>done' := True, input_buffer := str ''move north'', room := 3,
              output_buffer := str ''You are in the room with the mauve wallpaper''\<rparr>)"
proof -
  have e: "str ''move '' @ str ''north'' = str ''move north''"
    by (simp add: str_def)
  have v: "valid_moves (0, str ''north'') = Some 3"
    by (simp add: valid_moves_def str_def)
  have d: "room_description 3 = Inr (str ''You are in the room with the mauve wallpaper'')"
    by (simp add: room_description_def room_dict_def)
  have "route ((init 50000)\<lparr>done' := True, input_buffer := str ''move '' @ str ''north''\<rparr>) =
       Inr ((init 50000)\<lparr>done' := True, input_buffer := str ''move '' @ str ''north'', room := 3,
              output_buffer := str ''You are in the room with the mauve wallpaper''\<rparr>)"
    using v d route_move [where s = "(init 50000)\<lparr>done' := True\<rparr>" and d = "str ''north''"]
    by (simp add: move_def init_def)
  then show ?thesis by (simp add: e init_def)
qed

lemma route_ignores_flag:
  assumes "done' s"
  shows "\<exists>t. route (s\<lparr>done' := False\<rparr>) = Inr t \<and> route s = Inr (t\<lparr>done' := True\<rparr>)"
proof -
  have s: "s = s\<lparr>done' := True\<rparr>" using assms by simp
  show ?thesis
  proof (cases "routing_dict (takeWhile (\<lambda>c. c \<noteq> 0x20) (input_buffer s))")
    case None
    then show ?thesis using assms by (simp add: route_def route_parse_eq)
  next
    case (Some h)
    show ?thesis
    proof (cases h)
      case Quit
      with Some show ?thesis by (simp add: route_def route_parse_eq quit_def)
    next
      case Say
      with Some show ?thesis using assms by (simp add: route_def route_parse_eq say_def)
    next
      case Move
      let ?a = "drop 1 (dropWhile (\<lambda>c. c \<noteq> 0x20) (input_buffer s))"
      show ?thesis
      proof (cases "valid_moves (room s, ?a)")
        case None
        with Some Move show ?thesis using assms by (simp add: route_def route_parse_eq move_def)
      next
        case (Some r)
        obtain desc where "room_description r = Inr desc"
          using room_description_defined [OF valid_moves_range [OF Some]] by blast
        with Some \<open>routing_dict (takeWhile (\<lambda>c. c \<noteq> 0x20) (input_buffer s)) = Some h\<close> Move
        show ?thesis using assms by (simp add: route_def route_parse_eq move_def)
      qed
    qed
  qed
qed

text \<open>
  C5, amended: with the termination flag set, the router handles any input line without
  an exception and leaves the flag set, and the loop of \<open>serve\<close> returns at once,
  reading and routing nothing more. The router does not look at the flag: what it does
  with the flag set is what it does with the flag clear, the flag apart.
\<close>

theorem terminated_stays_terminated:
  assumes "done' s"
  shows "(\<exists>s'. route s = Inr s' \<and> done' s') \<and> serve_loop s = Some (Inr s)
         \<and> (\<exists>t. route (s\<lparr>done' := False\<rparr>) = Inr t \<and> route s = Inr (t\<lparr>done' := True\<rparr>))"
proof (intro conjI)
  show "\<exists>s'. route s = Inr s' \<and> done' s'"
    using route_result [of s] assms by auto
  show "serve_loop s = Some (Inr s)"
    using assms by (subst serve_loop.simps) simp
  show "\<exists>t. route (s\<lparr>done' := False\<rparr>) = Inr t \<and> route s = Inr (t\<lparr>done' := True\<rparr>)"
    using assms by (rule route_ignores_flag)
qed

theorem terminated_stays_terminated_witness:
  "done' ((init 50000)\<lparr>done' := True, input_buffer := str ''move north''\<rparr>)
   \<and> (\<exists>s'. route ((init 50000)\<lparr>done' := True, input_buffer := str ''move north''\<rparr>) = Inr s'
          \<and> done' s')
   \<and> serve_loop ((init 50000)\<lparr>done' := True, input_buffer := str ''move north''\<rparr>) =
       Some (Inr ((init 50000)\<lparr>done' := True, input_buffer := str ''move north''\<rparr>))"
proof -
  have h: "done' ((init 50000)\<lparr>done' := True, input_buffer := str ''move north''\<rparr>)"
    by simp
  show ?thesis using terminated_stays_terminated [OF h] h by simp
qed

section \<open>Greeting a client\<close>

lemma greet_init:
  "greet (connect arriving (init p)) =
     Inr ((connect arriving (init p))\<lparr>output_buffer :=
        str ''Welcome to Realms of Venture! You are in the room with the white wallpaper''\<rparr>)"
  by (simp add: greet_def connect_def init_def room_description_def room_dict_def game_name_def
      str_def)

lemma encode_ascii:
  "\<forall>c\<in>set cs. of_char c < (0x80::nat) \<Longrightarrow> utf8_encode (map of_char cs) = Inr (map of_char cs)"
  by (induction cs) (auto simp: encode_char_def of_nat_of_char)

lemma welcome_bytes:
  "utf8_encode (str ''OK! Welcome to Realms of Venture! You are in the room with the white wallpaper'' @ [0x0A])
     = Inr (bytes ''OK! Welcome to Realms of Venture! You are in the room with the white wallpaper'' @ [0x0A])"
proof -
  have "utf8_encode (map of_char (''OK! Welcome to Realms of Venture! You are in the room with the white wallpaper'' @ [CHR 0x0A]))
     = Inr (map of_char (''OK! Welcome to Realms of Venture! You are in the room with the white wallpaper'' @ [CHR 0x0A]))"
    by (rule encode_ascii) simp
  then show ?thesis by (simp add: str_def bytes_def)
qed


text \<open>
  C8. Serving a client starts with the greeting: before anything is received (the
  client's segments are all still pending), exactly one payload has been sent, the bytes
  of "OK! Welcome to Realms of Venture! You are in the room with the white wallpaper"
  and a newline; what \<open>serve\<close> does afterwards is its loop from that state, which
  sends nothing more before \<open>get_input\<close> has returned.
\<close>

theorem serve_sends_welcome_first:
  "\<exists>s1 s2. greet (connect arriving (init p)) = Inr s1 \<and> push_output s1 = Inr s2
     \<and> client_connection s2 =
         Some \<lparr>incoming = arriving,
               outgoing = [bytes ''OK! Welcome to Realms of Venture! You are in the room with the white wallpaper'' @ [0x0A]],
               closed = False\<rparr>
     \<and> serve arriving (init p) =
         (case serve_loop s2 of
            None \<Rightarrow> None
          | Some (Inl e) \<Rightarrow> Some (Inl e)
          | Some (Inr s3) \<Rightarrow> Some (close_sockets s3))
     \<and> serve_loop s2 =
         (case get_input s2 of
            None \<Rightarrow> None
          | Some (Inl e) \<Rightarrow> Some (Inl e)
          | Some (Inr s3) \<Rightarrow>
              (case route s3 of
                 Inl e \<Rightarrow> Some (Inl e)
               | Inr s4 \<Rightarrow>
                   (case push_output s4 of
                      Inl e \<Rightarrow> Some (Inl e)
                    | Inr s5 \<Rightarrow> serve_loop s5)))"
proof -
  let ?s1 = "(connect arriving (init p))\<lparr>output_buffer :=
        str ''Welcome to Realms of Venture! You are in the room with the white wallpaper''\<rparr>"
  let ?out = "bytes ''OK! Welcome to Realms of Venture! You are in the room with the white wallpaper'' @ [0x0A]"
  let ?s2 = "?s1\<lparr>client_connection :=
        Some \<lparr>incoming = arriving, outgoing = [?out], closed = False\<rparr>\<rparr>"
  have e: "str ''OK! '' @ str ''Welcome to Realms of Venture! You are in the room with the white wallpaper'' @ [0x0A]
    = str ''OK! Welcome to Realms of Venture! You are in the room with the white wallpaper'' @ [0x0A]"
    by (simp add: str_def)
  have p: "push_output ?s1 = Inr ?s2"
    by (simp add: push_output_def e welcome_bytes) (simp add: connect_def sendall_def)
  have "serve arriving (init p) =
         (case serve_loop ?s2 of
            None \<Rightarrow> None
          | Some (Inl e) \<Rightarrow> Some (Inl e)
          | Some (Inr s3) \<Rightarrow> Some (close_sockets s3))"
    by (simp only: serve_def greet_init p sum.case)
  moreover have "client_connection ?s2 =
         Some \<lparr>incoming = arriving, outgoing = [?out], closed = False\<rparr>"
    by simp
  moreover have "serve_loop ?s2 =
         (case get_input ?s2 of
            None \<Rightarrow> None
          | Some (Inl e) \<Rightarrow> Some (Inl e)
          | Some (Inr s3) \<Rightarrow>
              (case route s3 of
                 Inl e \<Rightarrow> Some (Inl e)
               | Inr s4 \<Rightarrow>
                   (case push_output s4 of
                      Inl e \<Rightarrow> Some (Inl e)
                    | Inr s5 \<Rightarrow> serve_loop s5)))"
  proof -
    have "done' ?s2 = False" by (simp add: connect_def init_def)
    then show ?thesis by (subst serve_loop.simps) (simp only: if_False)
  qed
  ultimately show ?thesis using greet_init [of arriving p] p by blast
qed

section \<open>Reading a line\<close>








section \<open>The parse step\<close>

lemma strip_decompose:
  "line = takeWhile isspace line @ strip line @ rev (takeWhile isspace (rev (dropWhile isspace line)))"
proof -
  let ?m = "dropWhile isspace line"
  have "rev (dropWhile isspace (rev ?m)) @ rev (takeWhile isspace (rev ?m)) =
          rev (takeWhile isspace (rev ?m) @ dropWhile isspace (rev ?m))"
    by (simp only: rev_append)
  also have "\<dots> = ?m"
    by (simp only: takeWhile_dropWhile_id rev_rev_ident)
  finally have "?m = strip line @ rev (takeWhile isspace (rev ?m))"
    by (simp only: strip_def)
  moreover have "line = takeWhile isspace line @ ?m" by simp
  ultimately show ?thesis by simp
qed

lemma strip_last: "strip line \<noteq> [] \<Longrightarrow> \<not> isspace (last (strip line))"
  by (simp add: strip_def last_rev hd_dropWhile)

lemma strip_hd: "strip line \<noteq> [] \<Longrightarrow> \<not> isspace (hd (strip line))"
proof -
  assume ne: "strip line \<noteq> []"
  let ?m = "dropWhile isspace line"
  have m: "?m \<noteq> []"
    using ne by (metis dropWhile.simps(1) rev.simps(1) strip_def)
  then have h: "\<not> isspace (hd ?m)" by (rule hd_dropWhile)
  obtain a t where at: "?m = a # t" using m by (cases ?m) auto
  with h have "\<not> isspace a" by simp
  then have "strip line = a # rev (dropWhile isspace (rev t))"
    using at by (simp add: strip_def dropWhile_snoc_keep)
  with \<open>\<not> isspace a\<close> show ?thesis by simp
qed


text \<open>
  C3, as stated: only trailing whitespace is trimmed, so leading whitespace stays and the
  command is what stands before the first space. It fails on the line " quit": the
  specification's parse gives the empty command and the argument "quit", while
  \<open>strip\<close> removes the leading space and \<open>route\<close> sees the command "quit" with
  an empty argument.
\<close>

theorem parse_keeps_leading_whitespace_counterexample:
  "route_parse (strip (str '' quit'')) = Inr (str ''quit'', [])
   \<and> spec_parse (str '' quit'') = ([], str ''quit'')"
  by (simp add: route_parse_eq strip_def spec_parse_def str_def isspace_def)

text \<open>
  C3, amended: for every input line, \<open>get_input\<close>'s \<open>strip\<close> removes the whitespace
  at both ends (the line is whitespace, then the stripped text, then whitespace, and the
  stripped text neither starts nor ends with whitespace), and \<open>route\<close> splits the
  stripped text at its first space character: the command is everything before it, the
  argument everything after it as it stands (empty when there is no space), further
  spaces included.
\<close>

theorem parse_step:
  "(\<exists>pre post. line = pre @ strip line @ post \<and> (\<forall>c\<in>set pre. isspace c)
       \<and> (\<forall>c\<in>set post. isspace c))
   \<and> (strip line = [] \<or> (\<not> isspace (hd (strip line)) \<and> \<not> isspace (last (strip line))))
   \<and> route_parse (strip line) =
       Inr (takeWhile (\<lambda>c. c \<noteq> 0x20) (strip line),
            drop 1 (dropWhile (\<lambda>c. c \<noteq> 0x20) (strip line)))
   \<and> (\<forall>command arguments. 0x20 \<notin> set command \<longrightarrow>
         route_parse (command @ 0x20 # arguments) = Inr (command, arguments))"
proof (intro conjI)
  let ?pre = "takeWhile isspace line"
  let ?post = "rev (takeWhile isspace (rev (dropWhile isspace line)))"
  have "line = ?pre @ strip line @ ?post"
    by (rule strip_decompose)
  moreover have "\<forall>c\<in>set ?pre. isspace c"
    by (auto dest: set_takeWhileD)
  moreover have "\<forall>c\<in>set ?post. isspace c"
    by (auto dest: set_takeWhileD)
  ultimately show "\<exists>pre post. line = pre @ strip line @ post \<and> (\<forall>c\<in>set pre. isspace c)
       \<and> (\<forall>c\<in>set post. isspace c)"
    by blast
  show "strip line = [] \<or> (\<not> isspace (hd (strip line)) \<and> \<not> isspace (last (strip line)))"
    using strip_hd [of line] strip_last [of line] by blast
  show "route_parse (strip line) =
       Inr (takeWhile (\<lambda>c. c \<noteq> 0x20) (strip line),
            drop 1 (dropWhile (\<lambda>c. c \<noteq> 0x20) (strip line)))"
    by (rule route_parse_eq)
  show "\<forall>command arguments. 0x20 \<notin> set command \<longrightarrow>
         route_parse (command @ 0x20 # arguments) = Inr (command, arguments)"
    by (simp add: route_parse_space)
qed

theorem parse_step_witness:
  "strip (str ''  say  hi there '' @ [0x0A]) = str ''say  hi there''
   \<and> route_parse (strip (str ''  say  hi there '' @ [0x0A])) = Inr (str ''say'', str '' hi there'')
   \<and> route_parse (str ''say'' @ 0x20 # str '' hi there'') = Inr (str ''say'', str '' hi there'')"
proof -
  have s: "strip (str ''  say  hi there '' @ [0x0A]) = str ''say  hi there''"
    by (simp add: strip_def str_def isspace_def)
  have n: "0x20 \<notin> set (str ''say'')"
    by (simp add: str_def)
  have t: "takeWhile (\<lambda>c. c \<noteq> 0x20) (str ''say  hi there'') = str ''say''"
    by (simp add: str_def)
  have d: "drop 1 (dropWhile (\<lambda>c. c \<noteq> 0x20) (str ''say  hi there'')) = str '' hi there''"
    by (simp add: str_def)
  show ?thesis
    using parse_step [of "str ''  say  hi there '' @ [0x0A]"] n t d by (simp add: s)
qed

end
